theory Spec2Isabelle
  imports Complex_Main "HOL-Library.Multiset" "HOL-Library.Sublist"
begin

section \<open>Points and curves\<close>

text \<open>
  The embedding follows \<^verbatim>\<open>src/curves/main.cpp\<close>. The C++ type \<^verbatim>\<open>double\<close> is idealised as
  \<^typ>\<open>real\<close>, as the specification does when it speaks of real parameters: every arithmetic
  operation is the exact one, and the constant \<^verbatim>\<open>M_PI\<close> is the number \<open>\<pi>\<close>. Rounding, infinities
  and NaN are outside this model.
\<close>

text \<open>\<^verbatim>\<open>struct Point { double x{}; double y{}; double z{}; };\<close>\<close>

record Point =
  x :: real
  y :: real
  z :: real

definition M_PI :: real where
  "M_PI = pi"

text \<open>
  The class hierarchy below \<^verbatim>\<open>Curve\<close>: the runtime type of an object is the constructor, the
  private fields are its arguments (\<^verbatim>\<open>radius_\<close>; \<^verbatim>\<open>radius_x_\<close>, \<^verbatim>\<open>radius_y_\<close>; \<^verbatim>\<open>radius_\<close>, \<^verbatim>\<open>step_\<close>).
  The constructors of the classes store their arguments unchanged and validate nothing.
\<close>

datatype Curve =
    Circle real
  | Ellipse real real
  | Helix real real

text \<open>\<^verbatim>\<open>std::max(a, b)\<close> returns \<^verbatim>\<open>(a < b) ? b : a\<close>.\<close>

definition std_max :: "real \<Rightarrow> real \<Rightarrow> real" where
  "std_max a b = (if a < b then b else a)"

text \<open>The virtual member functions; a call dispatches on the runtime type.\<close>

fun radius :: "Curve \<Rightarrow> real" where
  "radius (Circle r) = r"
| "radius (Ellipse rx ry) = std_max rx ry"
| "radius (Helix r st) = r"

fun point :: "Curve \<Rightarrow> real \<Rightarrow> Point" where
  "point (Circle r) t = \<lparr>x = r * cos t, y = r * sin t, z = 0\<rparr>"
| "point (Ellipse rx ry) t = \<lparr>x = rx * cos t, y = ry * sin t, z = 0\<rparr>"
| "point (Helix r st) t = \<lparr>x = r * cos t, y = r * sin t, z = st * t / (2 * M_PI)\<rparr>"

fun derivative :: "Curve \<Rightarrow> real \<Rightarrow> Point" where
  "derivative (Circle r) t = \<lparr>x = - r * sin t, y = r * cos t, z = 0\<rparr>"
| "derivative (Ellipse rx ry) t = \<lparr>x = - rx * sin t, y = ry * cos t, z = 0\<rparr>"
| "derivative (Helix r st) t = \<lparr>x = - r * sin t, y = r * cos t, z = st / (2 * M_PI)\<rparr>"

text \<open>
  Vocabulary of the geometric properties: the dot product of two vectors, the length of a
  vector, and the distance of a point from the origin inside the xy-plane.
\<close>

definition dot :: "Point \<Rightarrow> Point \<Rightarrow> real" where
  "dot p q = x p * x q + y p * y q + z p * z q"

definition magnitude :: "Point \<Rightarrow> real" where
  "magnitude p = sqrt (dot p p)"

definition distance_xy :: "Point \<Rightarrow> real" where
  "distance_xy p = sqrt ((x p)\<^sup>2 + (y p)\<^sup>2)"

section \<open>The state of \<^verbatim>\<open>main\<close>\<close>

text \<open>
  Objects created by \<^verbatim>\<open>std::make_unique\<close> live in a heap, a partial map from addresses to
  objects. The owning vector \<^verbatim>\<open>curves\<close> and the non-owning vector \<^verbatim>\<open>circles\<close> both hold
  addresses, so that a reference and the object it refers to are different things.
  \<open>brk\<close> is the allocator's state: the least address that was never handed out.
  \<open>mt\<close> is the state of the pseudorandom generator. The second loop of \<^verbatim>\<open>main\<close> only prints
  the curves and changes none of these variables; it has no counterpart here.
\<close>

type_synonym addr = nat

record 'g state =
  mt :: 'g
  heap :: "addr \<rightharpoonup> Curve"
  brk :: addr
  curves :: "addr list"
  circles :: "addr list"
  radius_sum :: real

text \<open>
  \<^verbatim>\<open>curves.push_back(std::make_unique<T>(...))\<close>: a fresh object is allocated and its owner is
  appended to the collection.
\<close>

definition push_back_make_unique :: "Curve \<Rightarrow> 'g state \<Rightarrow> 'g state" where
  "push_back_make_unique c s =
     s\<lparr>heap := (heap s)(brk s \<mapsto> c), brk := Suc (brk s), curves := curves s @ [brk s]\<rparr>"

section \<open>Collection builder\<close>

text \<open>
  The generator and the distribution classes belong to the standard library. A distribution
  object is constructed with its two bounds; a call \<^verbatim>\<open>dist(mt)\<close> reads and advances the
  generator's state and returns the drawn value. So each distribution class is a function from
  the bounds and a generator state to a value and the next state, and both are parameters of
  the model. C++ leaves the order in which the two arguments of a constructor call are
  evaluated to the compiler; \<open>left_to_right\<close> says which one it chose.
\<close>

record 'g library =
  uniform_int_distribution :: "int \<Rightarrow> int \<Rightarrow> 'g \<Rightarrow> int \<times> 'g"
  uniform_real_distribution :: "real \<Rightarrow> real \<Rightarrow> 'g \<Rightarrow> real \<times> 'g"
  left_to_right :: bool

text \<open>
  The three distribution objects of \<^verbatim>\<open>main\<close>:
  \<^verbatim>\<open>std::uniform_int_distribution<int> type_dist(1, 3);\<close>
  \<^verbatim>\<open>std::uniform_real_distribution<double> radius_dist(0.1, 100.0);\<close>
  \<^verbatim>\<open>std::uniform_real_distribution<double> step_dist(0.1, 100.0);\<close>
\<close>

definition type_dist :: "'g library \<Rightarrow> 'g \<Rightarrow> int \<times> 'g" where
  "type_dist L = uniform_int_distribution L 1 3"

definition radius_dist :: "'g library \<Rightarrow> 'g \<Rightarrow> real \<times> 'g" where
  "radius_dist L = uniform_real_distribution L (1 / 10) 100"

definition step_dist :: "'g library \<Rightarrow> 'g \<Rightarrow> real \<times> 'g" where
  "step_dist L = uniform_real_distribution L (1 / 10) 100"

text \<open>\<^verbatim>\<open>const int size = 10;\<close>\<close>

definition size_main :: int where
  "size_main = 10"

text \<open>The body of the first loop of \<^verbatim>\<open>main\<close>: the \<^verbatim>\<open>switch\<close> on the drawn type.\<close>

definition build_body :: "'g library \<Rightarrow> 'g state \<Rightarrow> 'g state" where
  "build_body L s =
     (let (k, g1) = type_dist L (mt s) in
      if k = 1 then
        (let (r, g2) = radius_dist L g1
         in push_back_make_unique (Circle r) (s\<lparr>mt := g2\<rparr>))
      else if k = 2 then
        (let (a, g2) = radius_dist L g1;
             (b, g3) = radius_dist L g2
         in push_back_make_unique (if left_to_right L then Ellipse a b else Ellipse b a)
              (s\<lparr>mt := g3\<rparr>))
      else
        (if left_to_right L then
           (let (r, g2) = radius_dist L g1;
                (st, g3) = step_dist L g2
            in push_back_make_unique (Helix r st) (s\<lparr>mt := g3\<rparr>))
         else
           (let (st, g2) = step_dist L g1;
                (r, g3) = radius_dist L g2
            in push_back_make_unique (Helix r st) (s\<lparr>mt := g3\<rparr>))))"

text \<open>\<^verbatim>\<open>for (int i = 0; i < size; ++i) { ... }\<close>\<close>

function build_loop :: "'g library \<Rightarrow> int \<Rightarrow> 'g state \<Rightarrow> 'g state" where
  "build_loop L i s = (if i < size_main then build_loop L (i + 1) (build_body L s) else s)"
  by pat_completeness auto
termination
  by (relation "measure (\<lambda>(L, i, s). nat (size_main - i))") auto

declare build_loop.simps [simp del]

text \<open>The state in which the first loop starts: nothing allocated, both vectors empty.\<close>

definition initial :: "'g \<Rightarrow> 'g state" where
  "initial g = \<lparr>mt = g, heap = Map.empty, brk = 0, curves = [], circles = [], radius_sum = 0\<rparr>"

definition build :: "'g library \<Rightarrow> 'g \<Rightarrow> 'g state" where
  "build L g = build_loop L 0 (initial g)"

text \<open>The radius-like parameters and the step parameter of a curve lie in \<open>[0.1, 100.0]\<close>.\<close>

fun parameters_in_range :: "Curve \<Rightarrow> bool" where
  "parameters_in_range (Circle r) = (1 / 10 \<le> r \<and> r \<le> 100)"
| "parameters_in_range (Ellipse rx ry) = (1 / 10 \<le> rx \<and> rx \<le> 100 \<and> 1 / 10 \<le> ry \<and> ry \<le> 100)"
| "parameters_in_range (Helix r st) = (1 / 10 \<le> r \<and> r \<le> 100 \<and> 1 / 10 \<le> st \<and> st \<le> 100)"

text \<open>
  What the standard promises about a draw, as far as its value goes: a distribution object
  constructed with the bounds \<open>a \<le> b\<close> returns values between \<open>a\<close> and \<open>b\<close>. (For the real
  distribution the standard excludes \<open>b\<close> itself; the weaker promise is all that is used.)
\<close>

definition library_contract :: "'g library \<Rightarrow> bool" where
  "library_contract L =
     ((\<forall>a b g. a \<le> b \<longrightarrow>
         a \<le> fst (uniform_int_distribution L a b g) \<and> fst (uniform_int_distribution L a b g) \<le> b) \<and>
      (\<forall>a b g. a \<le> b \<longrightarrow>
         a \<le> fst (uniform_real_distribution L a b g) \<and> fst (uniform_real_distribution L a b g) \<le> b))"

subsection \<open>The builder as the specification words it\<close>

text \<open>
  The specification: the builder produces \<open>N\<close> curves (\<open>N\<close> fixed, here 10) by, for each slot,
  drawing a uniformly distributed discrete choice among Circle, Ellipse and Helix and
  uniformly distributed real parameters from fixed ranges, radius-like parameters in
  \<open>[0.1, 100.0]\<close> and the step parameter in \<open>[0.1, 100.0]\<close>.

  The definitions below follow these words, not the code: a choice among three variants made
  from a draw of the integer distribution on \<open>1..3\<close>, then one draw of the real distribution on
  \<open>[0.1, 100.0]\<close> for each parameter of the chosen variant, and a list of curves instead of a
  heap. They are what the code's builder is compared with.
\<close>

datatype variant = Circle_variant | Ellipse_variant | Helix_variant

fun variant_of :: "Curve \<Rightarrow> variant" where
  "variant_of (Circle r) = Circle_variant"
| "variant_of (Ellipse rx ry) = Ellipse_variant"
| "variant_of (Helix r st) = Helix_variant"

definition choice :: "int \<Rightarrow> variant" where
  "choice k = (if k = 1 then Circle_variant else if k = 2 then Ellipse_variant else Helix_variant)"

definition drawn_slot :: "'g library \<Rightarrow> 'g \<Rightarrow> Curve \<times> 'g" where
  "drawn_slot L g =
     (let (k, g1) = uniform_int_distribution L 1 3 g;
          (u, g2) = uniform_real_distribution L (1 / 10) 100 g1;
          (v, g3) = uniform_real_distribution L (1 / 10) 100 g2
      in case choice k of
           Circle_variant \<Rightarrow> (Circle u, g2)
         | Ellipse_variant \<Rightarrow> (if left_to_right L then Ellipse u v else Ellipse v u, g3)
         | Helix_variant \<Rightarrow> (if left_to_right L then Helix u v else Helix v u, g3))"

fun drawn_collection :: "'g library \<Rightarrow> nat \<Rightarrow> 'g \<Rightarrow> Curve list \<times> 'g" where
  "drawn_collection L 0 g = ([], g)"
| "drawn_collection L (Suc n) g =
     (let (c, g1) = drawn_slot L g;
          (cs, g2) = drawn_collection L n g1
      in (c # cs, g2))"

text \<open>
  Uniformly distributed, for a value with finitely many outcomes: over a finite set \<open>G\<close> of
  equally likely generator states, the function \<open>f\<close> takes each value of \<open>S\<close> on the same
  number of states, and these states make up all of \<open>G\<close>.
\<close>

definition uniform_on :: "'g set \<Rightarrow> ('g \<Rightarrow> 'a) \<Rightarrow> 'a set \<Rightarrow> bool" where
  "uniform_on G f S =
     (finite G \<and> (\<forall>v \<in> S. card S * card {g \<in> G. f g = v} = card G))"

text \<open>The objects of the collection, in collection order, as the heap holds them.\<close>

definition objects :: "'g state \<Rightarrow> Curve option list" where
  "objects s = map (heap s) (curves s)"

section \<open>Circle aggregator\<close>

subsection \<open>Filter\<close>

text \<open>
  \<^verbatim>\<open>dynamic_cast<Circle*>(p)\<close> yields \<open>p\<close> when the object at \<open>p\<close> has runtime type \<^verbatim>\<open>Circle\<close>
  and the null pointer otherwise.
\<close>

definition dynamic_cast_Circle :: "(addr \<rightharpoonup> Curve) \<Rightarrow> addr \<Rightarrow> addr option" where
  "dynamic_cast_Circle h p = (case h p of Some (Circle r) \<Rightarrow> Some p | _ \<Rightarrow> None)"

text \<open>
  \<^verbatim>\<open>for (const auto& curve : curves) if (dynamic_cast<Circle*>(curve.get())) circles.push_back(...)\<close>:
  the loop walks the collection front to back; the third argument is \<^verbatim>\<open>circles\<close> so far.
\<close>

fun filter_loop :: "(addr \<rightharpoonup> Curve) \<Rightarrow> addr list \<Rightarrow> addr list \<Rightarrow> addr list" where
  "filter_loop h [] acc = acc"
| "filter_loop h (curve # rest) acc =
     filter_loop h rest
       (if dynamic_cast_Circle h curve \<noteq> None then acc @ [curve] else acc)"

definition filter_step :: "'g state \<Rightarrow> 'g state" where
  "filter_step s = s\<lparr>circles := filter_loop (heap s) (curves s) []\<rparr>"

text \<open>The runtime type of the object behind a reference.\<close>

definition is_Circle_at :: "(addr \<rightharpoonup> Curve) \<Rightarrow> addr \<Rightarrow> bool" where
  "is_Circle_at h p = (case h p of Some (Circle r) \<Rightarrow> True | _ \<Rightarrow> False)"

subsection \<open>Sort\<close>

text \<open>
  \<^verbatim>\<open>a->radius()\<close>: the virtual call through a reference. Reading through an address at which
  no object lives is undefined in C++ and unspecified here.
\<close>

definition radius_at :: "(addr \<rightharpoonup> Curve) \<Rightarrow> addr \<Rightarrow> real" where
  "radius_at h p = radius (the (h p))"

text \<open>The comparator: \<^verbatim>\<open>[](const Circle* a, const Circle* b) { return a->radius() < b->radius(); }\<close>\<close>

definition radius_less :: "(addr \<rightharpoonup> Curve) \<Rightarrow> addr \<Rightarrow> addr \<Rightarrow> bool" where
  "radius_less h a b = (radius_at h a < radius_at h b)"

text \<open>
  \<^verbatim>\<open>std::sort\<close> is library code and a parameter of the model: a function from a comparator and
  a sequence to the reordered sequence. What the C++ standard promises about it, for a
  comparator that is a strict weak ordering: the result is a rearrangement of the input, and
  no later element compares less than an earlier one. The order of equivalent elements is
  not fixed.
\<close>

type_synonym sorter = "(addr \<Rightarrow> addr \<Rightarrow> bool) \<Rightarrow> addr list \<Rightarrow> addr list"

definition strict_weak_order :: "(addr \<Rightarrow> addr \<Rightarrow> bool) \<Rightarrow> bool" where
  "strict_weak_order cmp =
     ((\<forall>a. \<not> cmp a a) \<and>
      (\<forall>a b c. cmp a b \<longrightarrow> cmp b c \<longrightarrow> cmp a c) \<and>
      (\<forall>a b c. \<not> cmp a b \<longrightarrow> \<not> cmp b a \<longrightarrow> \<not> cmp b c \<longrightarrow> \<not> cmp c b \<longrightarrow> \<not> cmp a c \<and> \<not> cmp c a))"

definition std_sort_contract :: "sorter \<Rightarrow> bool" where
  "std_sort_contract srt =
     (\<forall>cmp xs. strict_weak_order cmp \<longrightarrow>
        mset (srt cmp xs) = mset xs \<and> sorted_wrt (\<lambda>a b. \<not> cmp b a) (srt cmp xs))"

definition sort_step :: "sorter \<Rightarrow> 'g state \<Rightarrow> 'g state" where
  "sort_step srt s = s\<lparr>circles := srt (radius_less (heap s)) (circles s)\<rparr>"

text \<open>
  One implementation that meets the contract, used to instantiate the parameter: insertion
  sort with a comparator.
\<close>

fun insert_by :: "(addr \<Rightarrow> addr \<Rightarrow> bool) \<Rightarrow> addr \<Rightarrow> addr list \<Rightarrow> addr list" where
  "insert_by cmp a [] = [a]"
| "insert_by cmp a (b # bs) = (if cmp a b then a # b # bs else b # insert_by cmp a bs)"

fun insertion_sort :: sorter where
  "insertion_sort cmp [] = []"
| "insertion_sort cmp (a # as) = insert_by cmp a (insertion_sort cmp as)"

subsection \<open>Reduction\<close>

text \<open>
  \<^verbatim>\<open>for (i = 0; i < circles.size(); ++i) radius_sum += circles[i]->radius();\<close>
  This function is the loop run by one thread, in index order. In \<^verbatim>\<open>main\<close> the loop stands
  under \<^verbatim>\<open>#pragma omp for\<close> inside a parallel region of four threads; that execution is
  modelled further below. Both agree when the view is empty, since then no iteration runs.
\<close>

function sum_loop :: "(addr \<rightharpoonup> Curve) \<Rightarrow> addr list \<Rightarrow> nat \<Rightarrow> real \<Rightarrow> real" where
  "sum_loop h cs i acc =
     (if i < length cs then sum_loop h cs (i + 1) (acc + radius_at h (cs ! i)) else acc)"
  by pat_completeness auto
termination
  by (relation "measure (\<lambda>(h, cs, i, acc). length cs - i)") auto

text \<open>\<^verbatim>\<open>double radius_sum{};\<close> followed by the loop.\<close>

definition reduce_step :: "'g state \<Rightarrow> 'g state" where
  "reduce_step s = s\<lparr>radius_sum := sum_loop (heap s) (circles s) 0 0\<rparr>"

text \<open>Lines 147 to 172 of \<^verbatim>\<open>main\<close>: filter, sort, reduce.\<close>

definition aggregate :: "sorter \<Rightarrow> 'g state \<Rightarrow> 'g state" where
  "aggregate srt s = reduce_step (sort_step srt (filter_step s))"

subsection \<open>The reduction on four threads\<close>

text \<open>
  \<^verbatim>\<open>const int num_threads = 4; omp_set_num_threads(num_threads);\<close>
\<close>

definition num_threads :: nat where
  "num_threads = 4"

text \<open>
  \<^verbatim>\<open>#pragma omp parallel { #pragma omp for for (...) radius_sum += circles[i]->radius(); }\<close>
  The pragma names no \<^verbatim>\<open>reduction\<close>, \<^verbatim>\<open>atomic\<close> or \<^verbatim>\<open>critical\<close>, so \<^verbatim>\<open>radius_sum\<close> is one
  variable shared by all threads, and \<^verbatim>\<open>+=\<close> on it is a read of the variable followed by a
  write of the sum. A worker holds the iterations it still has to run and, between the read
  and the write of one \<^verbatim>\<open>+=\<close>, the value it has read.
\<close>

record worker =
  pending :: "nat list"
  loaded :: "real option"

text \<open>
  The loop has no \<^verbatim>\<open>schedule\<close> clause, so the OpenMP runtime divides the iterations. The
  division taken here is the static one the specification describes: the index range is cut
  into contiguous shares, one per thread, whose sizes differ by at most one.
\<close>

definition static_share :: "nat \<Rightarrow> nat \<Rightarrow> nat list" where
  "static_share n k =
     (let q = n div num_threads; r = n mod num_threads
      in if k < r then [k * (q + 1) ..< k * (q + 1) + (q + 1)]
         else [r * (q + 1) + (k - r) * q ..< r * (q + 1) + (k - r) * q + q])"

definition team :: "nat \<Rightarrow> worker list" where
  "team n = map (\<lambda>k. \<lparr>pending = static_share n k, loaded = None\<rparr>) [0 ..< num_threads]"

text \<open>One step of a worker: nothing when it has finished, else the read or the write.\<close>

definition worker_step ::
  "(addr \<rightharpoonup> Curve) \<Rightarrow> addr list \<Rightarrow> real \<Rightarrow> worker \<Rightarrow> real \<times> worker" where
  "worker_step h cs sum0 w =
     (case pending w of
        [] \<Rightarrow> (sum0, w)
      | i # rest \<Rightarrow>
          (case loaded w of
             None \<Rightarrow> (sum0, w\<lparr>loaded := Some sum0\<rparr>)
           | Some v \<Rightarrow> (v + radius_at h (cs ! i), \<lparr>pending = rest, loaded = None\<rparr>)))"

text \<open>
  The order in which the threads take their steps is not fixed by the program. It is a
  parameter: a schedule is the list of the thread numbers in the order of their steps.
\<close>

fun run_schedule ::
  "(addr \<rightharpoonup> Curve) \<Rightarrow> addr list \<Rightarrow> nat list \<Rightarrow> real \<times> worker list \<Rightarrow> real \<times> worker list" where
  "run_schedule h cs [] st = st"
| "run_schedule h cs (k # ks) (sum0, ws) =
     (if k < length ws then
        (let (sum', w') = worker_step h cs sum0 (ws ! k)
         in run_schedule h cs ks (sum', ws[k := w']))
      else run_schedule h cs ks (sum0, ws))"

text \<open>
  The parallel region, from \<^verbatim>\<open>radius_sum = 0\<close>: the value of \<^verbatim>\<open>radius_sum\<close> after the schedule,
  provided the schedule lets every thread finish its share.
\<close>

definition parallel_sum :: "(addr \<rightharpoonup> Curve) \<Rightarrow> addr list \<Rightarrow> nat list \<Rightarrow> real option" where
  "parallel_sum h cs sched =
     (let (sum0, ws) = run_schedule h cs sched (0, team (length cs))
      in if concat (map pending ws) = [] then Some sum0 else None)"

definition parallel_reduce_step :: "nat list \<Rightarrow> 'g state \<Rightarrow> 'g state option" where
  "parallel_reduce_step sched s =
     map_option (\<lambda>sum0. s\<lparr>radius_sum := sum0\<rparr>) (parallel_sum (heap s) (circles s) sched)"

section \<open>Concrete collections\<close>

text \<open>
  The collection of the specification's scenario,
  \<open>[Circle(3.0), Ellipse(2.0, 5.0), Helix(4.0, 6.0), Circle(1.0)]\<close>, built by four calls of
  \<^verbatim>\<open>push_back\<close> from the empty state, and a collection that holds no circle.
\<close>

definition scenario :: "unit state" where
  "scenario =
     push_back_make_unique (Circle 1)
       (push_back_make_unique (Helix 4 6)
          (push_back_make_unique (Ellipse 2 5)
             (push_back_make_unique (Circle 3) (initial ()))))"

definition no_circles :: "unit state" where
  "no_circles =
     push_back_make_unique (Helix 4 6) (push_back_make_unique (Ellipse 2 5) (initial ()))"

text \<open>
  A library to instantiate the builder with: the generator state is a counter, and each
  distribution computes its draw from the counter and advances it.
\<close>

definition demo_library :: "nat library" where
  "demo_library =
     \<lparr>uniform_int_distribution = (\<lambda>a b g. (a + int (g mod nat (b - a + 1)), Suc g)),
      uniform_real_distribution = (\<lambda>a b g. (a + (b - a) * (real (g mod 10) / 10), Suc g)),
      left_to_right = True\<rparr>"

section \<open>The three curves\<close>

text \<open>
  C1. For every real radius \<open>r\<close> and every real \<open>t\<close>, \<open>Circle(r).point(t) = (r cos t, r sin t, 0)\<close>,
  \<open>Circle(r).derivative(t) = (- r sin t, r cos t, 0)\<close> and \<open>Circle(r).radius() = r\<close>.
\<close>

theorem circle_interface:
  "point (Circle r) t = \<lparr>x = r * cos t, y = r * sin t, z = 0\<rparr> \<and>
   derivative (Circle r) t = \<lparr>x = - (r * sin t), y = r * cos t, z = 0\<rparr> \<and>
   radius (Circle r) = r"
  by simp

text \<open>
  C2. For every pair of real parameters \<open>rx\<close>, \<open>ry\<close> and every real \<open>t\<close>,
  \<open>Ellipse(rx, ry).point(t) = (rx cos t, ry sin t, 0)\<close>,
  \<open>Ellipse(rx, ry).derivative(t) = (- rx sin t, ry cos t, 0)\<close> and
  \<open>Ellipse(rx, ry).radius() = max(rx, ry)\<close>.
\<close>

theorem ellipse_interface:
  "point (Ellipse rx ry) t = \<lparr>x = rx * cos t, y = ry * sin t, z = 0\<rparr> \<and>
   derivative (Ellipse rx ry) t = \<lparr>x = - (rx * sin t), y = ry * cos t, z = 0\<rparr> \<and>
   radius (Ellipse rx ry) = max rx ry"
  by (simp add: std_max_def max_def)

text \<open>
  C3. For every pair of real parameters \<open>r\<close>, \<open>step\<close> and every real \<open>t\<close>,
  \<open>Helix(r, step).point(t) = (r cos t, r sin t, step t / (2 \<pi>))\<close>,
  \<open>Helix(r, step).derivative(t) = (- r sin t, r cos t, step / (2 \<pi>))\<close> and
  \<open>Helix(r, step).radius() = r\<close>. The z-coordinate of the point is the slope \<open>step / (2 \<pi>)\<close> times
  \<open>t\<close>, and the x- and y-coordinates are those of \<open>Circle(r)\<close> at the same \<open>t\<close>.
\<close>

theorem helix_interface:
  "point (Helix r st) t = \<lparr>x = r * cos t, y = r * sin t, z = st * t / (2 * pi)\<rparr> \<and>
   derivative (Helix r st) t = \<lparr>x = - (r * sin t), y = r * cos t, z = st / (2 * pi)\<rparr> \<and>
   radius (Helix r st) = r \<and>
   z (point (Helix r st) t) = st / (2 * pi) * t \<and>
   x (point (Helix r st) t) = x (point (Circle r) t) \<and>
   y (point (Helix r st) t) = y (point (Circle r) t)"
  by (simp add: M_PI_def)

subsection \<open>Geometry of the circle\<close>

lemma circle_square_sum: "(r * cos t)\<^sup>2 + (r * sin t)\<^sup>2 = r\<^sup>2" for r t :: real
proof -
  have "(r * cos t)\<^sup>2 + (r * sin t)\<^sup>2 = r\<^sup>2 * ((sin t)\<^sup>2 + (cos t)\<^sup>2)"
    by (simp only: power_mult_distrib distrib_left add.commute)
  also have "\<dots> = r\<^sup>2"
    by (simp only: sin_cos_squared_add mult_1_right)
  finally show ?thesis .
qed

text \<open>
  C8, as stated, at the circle constructed with radius \<open>-1\<close> and \<open>t = 0\<close>: the point is
  \<open>(-1, 0, 0)\<close>, at distance \<open>1\<close> from the origin, and \<open>1\<close> is not the radius \<open>-1\<close>.
\<close>

theorem circle_geometry_counterexample:
  "distance_xy (point (Circle (- 1)) 0) \<noteq> - 1"
  by (simp add: distance_xy_def)

text \<open>
  C8, amended. For every real \<open>t\<close> and every \<open>Circle(r)\<close>, \<open>point(t)\<close> lies at Euclidean distance
  \<open>|r|\<close> from the origin in the xy-plane, \<open>derivative(t)\<close> is orthogonal to \<open>point(t)\<close> (their dot
  product is \<open>0\<close>), and \<open>derivative(t)\<close> has magnitude \<open>|r|\<close>. For \<open>r \<ge> 0\<close> that is \<open>r\<close> itself.
\<close>

theorem circle_geometry:
  "distance_xy (point (Circle r) t) = \<bar>r\<bar> \<and>
   dot (derivative (Circle r) t) (point (Circle r) t) = 0 \<and>
   magnitude (derivative (Circle r) t) = \<bar>r\<bar>"
proof (intro conjI)
  show "distance_xy (point (Circle r) t) = \<bar>r\<bar>"
    by (simp add: distance_xy_def circle_square_sum)
  show "dot (derivative (Circle r) t) (point (Circle r) t) = 0"
    by (simp add: dot_def)
  have "(r * sin t)\<^sup>2 + (r * cos t)\<^sup>2 = r\<^sup>2"
    using circle_square_sum [of r t] by (simp add: add.commute)
  then show "magnitude (derivative (Circle r) t) = \<bar>r\<bar>"
    by (simp add: magnitude_def dot_def power2_eq_square)
qed

section \<open>Filter\<close>

text \<open>The loop appends to \<^verbatim>\<open>circles\<close> the references to circles, in the order of the walk.\<close>

lemma filter_loop_eq: "filter_loop h cs acc = acc @ filter (is_Circle_at h) cs"
  by (induction cs arbitrary: acc)
     (auto simp: dynamic_cast_Circle_def is_Circle_at_def split: option.splits Curve.splits)

text \<open>
  C10. For every real \<open>r\<close> and every real \<open>t\<close>, \<open>Ellipse(r, r)\<close> agrees with \<open>Circle(r)\<close> on the
  public interface: the same \<open>point(t)\<close>, the same \<open>derivative(t)\<close>, and the same \<open>radius()\<close>,
  which is \<open>r\<close>. Yet the cast to \<^verbatim>\<open>Circle*\<close> of a reference to such an ellipse fails, and the
  filter step never puts that reference into the circle subview.
\<close>

theorem ellipse_equal_radii:
  "point (Ellipse r r) t = point (Circle r) t \<and>
   derivative (Ellipse r r) t = derivative (Circle r) t \<and>
   radius (Ellipse r r) = radius (Circle r) \<and>
   radius (Circle r) = r \<and>
   dynamic_cast_Circle (h(p \<mapsto> Ellipse r r)) p = None \<and>
   p \<notin> set (circles (filter_step (s\<lparr>heap := (heap s)(p \<mapsto> Ellipse r r)\<rparr>)))"
  by (simp add: std_max_def dynamic_cast_Circle_def filter_step_def filter_loop_eq is_Circle_at_def)

lemma scenario_simps:
  "curves scenario = [0, 1, 2, 3]"
  "heap scenario 0 = Some (Circle 3)"
  "heap scenario (Suc 0) = Some (Ellipse 2 5)"
  "heap scenario 2 = Some (Helix 4 6)"
  "heap scenario 3 = Some (Circle 1)"
  by (simp_all add: scenario_def push_back_make_unique_def initial_def)

lemma no_circles_simps:
  "curves no_circles = [0, 1]"
  "heap no_circles 0 = Some (Ellipse 2 5)"
  "heap no_circles (Suc 0) = Some (Helix 4 6)"
  by (simp_all add: no_circles_def push_back_make_unique_def initial_def)

text \<open>
  C4. For every collection of mixed curve variants, the filter step produces a subview that
  contains exactly the entries whose runtime variant is Circle, in their original collection
  order: it is the collection with every other entry dropped, so no reference to an Ellipse
  or a Helix is in it. Its size is the number of Circle entries of the collection, and the
  \<open>radius()\<close> of each element is the value its Circle was constructed with. The collection and
  the objects are left as they were.
\<close>

theorem filter_step_circles:
  "circles (filter_step s) = filter (is_Circle_at (heap s)) (curves s) \<and>
   subseq (circles (filter_step s)) (curves s) \<and>
   length (circles (filter_step s)) =
     card {i. i < length (curves s) \<and> is_Circle_at (heap s) (curves s ! i)} \<and>
   (\<forall>p \<in> set (circles (filter_step s)).
      \<exists>r. heap s p = Some (Circle r) \<and> radius_at (heap (filter_step s)) p = r) \<and>
   (\<forall>p rx ry. heap s p = Some (Ellipse rx ry) \<longrightarrow> p \<notin> set (circles (filter_step s))) \<and>
   (\<forall>p r st. heap s p = Some (Helix r st) \<longrightarrow> p \<notin> set (circles (filter_step s))) \<and>
   heap (filter_step s) = heap s \<and> curves (filter_step s) = curves s"
proof -
  have eq: "circles (filter_step s) = filter (is_Circle_at (heap s)) (curves s)"
    by (simp add: filter_step_def filter_loop_eq)
  have len: "length (filter (is_Circle_at (heap s)) (curves s)) =
      card {i. i < length (curves s) \<and> is_Circle_at (heap s) (curves s ! i)}"
    by (rule length_filter_conv_card)
  have rad: "\<exists>r. heap s p = Some (Circle r) \<and> radius_at (heap s) p = r"
    if "is_Circle_at (heap s) p" for p
    using that by (auto simp: is_Circle_at_def radius_at_def split: option.splits Curve.splits)
  have frame: "heap (filter_step s) = heap s" "curves (filter_step s) = curves s"
    by (simp_all add: filter_step_def)
  show ?thesis
    using len rad by (auto simp: eq frame is_Circle_at_def)
qed

theorem filter_step_circles_witness:
  "circles (filter_step scenario) = [0, 3] \<and>
   card {i. i < length (curves scenario) \<and> is_Circle_at (heap scenario) (curves scenario ! i)} = 2 \<and>
   radius_at (heap (filter_step scenario)) 0 = 3 \<and>
   radius_at (heap (filter_step scenario)) 3 = 1 \<and>
   1 \<notin> set (circles (filter_step scenario)) \<and>
   2 \<notin> set (circles (filter_step scenario))"
proof -
  note inst = filter_step_circles [of scenario]
  from inst have eq: "circles (filter_step scenario) =
      filter (is_Circle_at (heap scenario)) (curves scenario)"
    by blast
  from inst have len: "length (circles (filter_step scenario)) =
      card {i. i < length (curves scenario) \<and> is_Circle_at (heap scenario) (curves scenario ! i)}"
    by blast
  from inst have frame: "heap (filter_step scenario) = heap scenario"
    by blast
  have sub: "circles (filter_step scenario) = [0, 3]"
    by (simp add: eq scenario_simps is_Circle_at_def)
  have count: "card {i. i < length (curves scenario) \<and>
      is_Circle_at (heap scenario) (curves scenario ! i)} = 2"
    using len by (simp add: sub)
  have rad: "radius_at (heap (filter_step scenario)) 0 = 3"
      "radius_at (heap (filter_step scenario)) 3 = 1"
    by (simp_all add: frame radius_at_def scenario_simps)
  show ?thesis
    using count rad by (simp add: sub)
qed

section \<open>Sort\<close>

lemma radius_less_strict_weak_order: "strict_weak_order (radius_less h)"
  unfolding strict_weak_order_def radius_less_def by auto

lemma sorted_radii_unique:
  fixes rs rs' :: "real list"
  assumes "mset rs = mset rs'" and "sorted rs" and "sorted rs'"
  shows "rs = rs'"
proof -
  have "sort rs' = rs"
    using assms(1,2) by (intro properties_for_sort) simp_all
  moreover have "sort rs' = rs'"
    using assms(3) by (rule sorted_sort_id)
  ultimately show ?thesis by simp
qed

lemma std_sort_radii:
  assumes "std_sort_contract srt"
  shows "mset (srt (radius_less h) cs) = mset cs"
    and "sorted (map (radius_at h) (srt (radius_less h) cs))"
proof -
  from assms radius_less_strict_weak_order [of h]
  have perm: "mset (srt (radius_less h) cs) = mset cs"
    and ord: "sorted_wrt (\<lambda>a b. \<not> radius_less h b a) (srt (radius_less h) cs)"
    unfolding std_sort_contract_def by blast+
  show "mset (srt (radius_less h) cs) = mset cs" by (rule perm)
  have "sorted_wrt (\<lambda>a b. radius_at h a \<le> radius_at h b) (srt (radius_less h) cs)"
    using ord by (simp add: radius_less_def not_less)
  then show "sorted (map (radius_at h) (srt (radius_less h) cs))"
    by (simp add: sorted_wrt_map)
qed

lemma set_insert_by: "set (insert_by cmp a bs) = insert a (set bs)"
  by (induction bs) auto

lemma mset_insert_by: "mset (insert_by cmp a bs) = add_mset a (mset bs)"
  by (induction bs) auto

lemma sorted_insert_by:
  assumes "strict_weak_order cmp" and "sorted_wrt (\<lambda>a b. \<not> cmp b a) bs"
  shows "sorted_wrt (\<lambda>a b. \<not> cmp b a) (insert_by cmp a bs)"
  using assms(2)
proof (induction bs)
  case Nil
  then show ?case by simp
next
  case (Cons b bs)
  from assms(1) have irrefl: "\<not> cmp c c" and trans: "cmp c d \<Longrightarrow> cmp d e \<Longrightarrow> cmp c e" for c d e
    unfolding strict_weak_order_def by blast+
  show ?case
  proof (cases "cmp a b")
    case True
    then have "\<not> cmp b a" using irrefl trans by blast
    moreover have "\<not> cmp c a" if "c \<in> set bs" for c
      using that True Cons.prems trans by auto
    ultimately show ?thesis using True Cons.prems by auto
  next
    case False
    then show ?thesis using Cons by (auto simp: set_insert_by)
  qed
qed

lemma insertion_sort_contract: "std_sort_contract insertion_sort"
proof -
  have "mset (insertion_sort cmp cs) = mset cs" for cmp cs
    by (induction cs) (simp_all add: mset_insert_by)
  moreover have "sorted_wrt (\<lambda>a b. \<not> cmp b a) (insertion_sort cmp cs)"
    if "strict_weak_order cmp" for cmp cs
    using that by (induction cs) (simp_all add: sorted_insert_by)
  ultimately show ?thesis
    unfolding std_sort_contract_def by blast
qed

lemma scenario_filtered: "circles (filter_step scenario) = [0, 3]"
  and scenario_filtered_heap: "heap (filter_step scenario) = heap scenario"
  by (simp_all add: filter_step_def filter_loop_eq scenario_simps is_Circle_at_def)

lemma scenario_radii:
  "radius_at (heap scenario) 0 = 3" "radius_at (heap scenario) 3 = 1"
  by (simp_all add: radius_at_def scenario_simps)

lemma scenario_sorted:
  "circles (sort_step insertion_sort (filter_step scenario)) = [3, 0]"
  by (simp add: sort_step_def scenario_filtered scenario_filtered_heap radius_less_def scenario_radii)

text \<open>
  C5. For every circle subview and every \<^verbatim>\<open>std::sort\<close> that keeps the standard's contract, the
  sort step leaves a view whose sequence of \<open>radius()\<close> values is non-decreasing. The view
  holds the same references as before, each as often as before: only their order changes,
  and the heap, the allocator and the collection are untouched, so no object is copied or
  mutated. Sorting a view whose radii are already non-decreasing does not change the sequence
  of radii, hence sorting twice gives the radii of sorting once.
\<close>

theorem sort_step_sorted:
  assumes "std_sort_contract srt"
  shows "sorted (map (radius_at (heap s)) (circles (sort_step srt s))) \<and>
         mset (circles (sort_step srt s)) = mset (circles s) \<and>
         heap (sort_step srt s) = heap s \<and>
         brk (sort_step srt s) = brk s \<and>
         curves (sort_step srt s) = curves s \<and>
         (sorted (map (radius_at (heap s)) (circles s)) \<longrightarrow>
            map (radius_at (heap s)) (circles (sort_step srt s)) =
            map (radius_at (heap s)) (circles s)) \<and>
         map (radius_at (heap s)) (circles (sort_step srt (sort_step srt s))) =
           map (radius_at (heap s)) (circles (sort_step srt s))"
proof -
  let ?h = "heap s"
  let ?once = "srt (radius_less ?h) (circles s)"
  let ?twice = "srt (radius_less ?h) ?once"
  have once: "circles (sort_step srt s) = ?once"
    and twice: "circles (sort_step srt (sort_step srt s)) = ?twice"
    and frame: "heap (sort_step srt s) = ?h" "brk (sort_step srt s) = brk s"
      "curves (sort_step srt s) = curves s"
    by (simp_all add: sort_step_def)
  note perm1 = std_sort_radii(1) [OF assms, of ?h "circles s"]
  note ord1 = std_sort_radii(2) [OF assms, of ?h "circles s"]
  note perm2 = std_sort_radii(1) [OF assms, of ?h ?once]
  note ord2 = std_sort_radii(2) [OF assms, of ?h ?once]
  have radii1: "mset (map (radius_at ?h) ?once) = mset (map (radius_at ?h) (circles s))"
    using perm1 by (metis mset_map)
  have radii2: "mset (map (radius_at ?h) ?twice) = mset (map (radius_at ?h) ?once)"
    using perm2 by (metis mset_map)
  have noop: "map (radius_at ?h) ?once = map (radius_at ?h) (circles s)"
    if "sorted (map (radius_at ?h) (circles s))"
    using radii1 ord1 that by (rule sorted_radii_unique)
  have idem: "map (radius_at ?h) ?twice = map (radius_at ?h) ?once"
    using radii2 ord2 ord1 by (rule sorted_radii_unique)
  show ?thesis
    using ord1 perm1 noop idem by (simp add: once twice frame)
qed

theorem sort_step_sorted_witness:
  "std_sort_contract insertion_sort \<and>
   circles (sort_step insertion_sort (filter_step scenario)) = [3, 0] \<and>
   sorted (map (radius_at (heap (filter_step scenario)))
     (circles (sort_step insertion_sort (filter_step scenario)))) \<and>
   mset (circles (sort_step insertion_sort (filter_step scenario))) = mset [0, 3] \<and>
   heap (sort_step insertion_sort (filter_step scenario)) = heap scenario \<and>
   sorted (map (radius_at (heap scenario)) [3, 0]) \<and>
   map (radius_at (heap (sort_step insertion_sort (filter_step scenario))))
     (circles (sort_step insertion_sort (sort_step insertion_sort (filter_step scenario)))) =
   [1, 3]"
proof -
  let ?s1 = "filter_step scenario"
  let ?s2 = "sort_step insertion_sort ?s1"
  note first = sort_step_sorted [OF insertion_sort_contract, of ?s1]
  note second = sort_step_sorted [OF insertion_sort_contract, of ?s2]
  from first have ord: "sorted (map (radius_at (heap ?s1)) (circles ?s2))"
    and perm: "mset (circles ?s2) = mset (circles ?s1)"
    and frame: "heap ?s2 = heap ?s1"
    by blast+
  have pre: "sorted (map (radius_at (heap ?s2)) (circles ?s2))"
    using ord by (simp only: frame)
  from second pre have "map (radius_at (heap ?s2)) (circles (sort_step insertion_sort ?s2)) =
      map (radius_at (heap ?s2)) (circles ?s2)"
    by blast
  then have again: "map (radius_at (heap ?s2)) (circles (sort_step insertion_sort ?s2)) = [1, 3]"
    by (simp add: scenario_sorted frame scenario_filtered_heap scenario_radii)
  have "sorted (map (radius_at (heap scenario)) [3, 0])"
    using pre by (simp only: scenario_sorted frame scenario_filtered_heap)
  with ord perm frame again insertion_sort_contract show ?thesis
    by (simp only: scenario_filtered scenario_sorted scenario_filtered_heap simp_thms)
qed

section \<open>Reduction\<close>

text \<open>Run in index order, the loop adds the radii behind the references to the accumulator.\<close>

lemma sum_loop_index_order:
  "sum_loop h cs i acc = acc + sum_list (map (radius_at h) (drop i cs))"
proof (induction h cs i acc rule: sum_loop.induct)
  case (1 h cs i acc)
  show ?case
  proof (cases "i < length cs")
    case True
    then have "drop i cs = cs ! i # drop (Suc i) cs"
      by (simp add: Cons_nth_drop_Suc)
    with True "1" show ?thesis by simp
  next
    case False
    then show ?thesis by simp
  qed
qed

text \<open>
  C7. When the circle subview is empty, the reduction leaves \<open>radius_sum\<close> at exactly \<open>0\<close>: the
  loop has no iteration, and nothing treats the empty view specially. So for a collection
  without any Circle entry, and in particular for the empty collection, the aggregator
  (filter, sort, reduce) ends with an empty subview and \<open>radius_sum = 0\<close>.
\<close>

theorem aggregate_empty:
  assumes "std_sort_contract srt"
  shows "(circles s = [] \<longrightarrow> radius_sum (reduce_step s) = 0) \<and>
         ((\<forall>p \<in> set (curves s). \<not> is_Circle_at (heap s) p) \<longrightarrow>
            circles (aggregate srt s) = [] \<and> radius_sum (aggregate srt s) = 0) \<and>
         (curves s = [] \<longrightarrow>
            circles (aggregate srt s) = [] \<and> radius_sum (aggregate srt s) = 0)"
proof -
  have reduce: "radius_sum (reduce_step s') = 0" if "circles s' = []" for s' :: "'a state"
    using that by (simp add: reduce_step_def)
  have sorted_empty: "circles (sort_step srt s') = []" if "circles s' = []" for s' :: "'a state"
  proof -
    have "mset (srt (radius_less (heap s')) []) = mset []"
      using assms by (rule std_sort_radii(1))
    then show ?thesis using that by (simp add: sort_step_def)
  qed
  have whole: "circles (aggregate srt s) = [] \<and> radius_sum (aggregate srt s) = 0"
    if "\<forall>p \<in> set (curves s). \<not> is_Circle_at (heap s) p"
  proof -
    have "circles (filter_step s) = []"
      using that by (simp add: filter_step_def filter_loop_eq)
    then have "circles (sort_step srt (filter_step s)) = []"
      by (rule sorted_empty)
    then show ?thesis
      by (simp add: aggregate_def reduce) (simp add: reduce_step_def)
  qed
  show ?thesis
    using reduce [of s] whole by simp
qed

theorem aggregate_empty_witness:
  "std_sort_contract insertion_sort \<and>
   curves (initial ()) = [] \<and>
   radius_sum (aggregate insertion_sort (initial ())) = 0 \<and>
   curves no_circles = [0, 1] \<and>
   \<not> is_Circle_at (heap no_circles) 0 \<and>
   \<not> is_Circle_at (heap no_circles) 1 \<and>
   circles (aggregate insertion_sort no_circles) = [] \<and>
   radius_sum (aggregate insertion_sort no_circles) = 0 \<and>
   circles (filter_step no_circles) = [] \<and>
   radius_sum (reduce_step (filter_step no_circles)) = 0"
proof -
  note empty = aggregate_empty [OF insertion_sort_contract, of "initial ()"]
  note mixed = aggregate_empty [OF insertion_sort_contract, of no_circles]
  note view = aggregate_empty [OF insertion_sort_contract, of "filter_step no_circles"]
  have e: "curves (initial ()) = []"
    by (simp add: initial_def)
  have m: "\<forall>p \<in> set (curves no_circles). \<not> is_Circle_at (heap no_circles) p"
    by (simp add: no_circles_simps is_Circle_at_def)
  have v: "circles (filter_step no_circles) = []"
    by (simp add: filter_step_def filter_loop_eq no_circles_simps is_Circle_at_def)
  from empty e have "radius_sum (aggregate insertion_sort (initial ())) = 0" by blast
  moreover from mixed m have "circles (aggregate insertion_sort no_circles) = []"
    and "radius_sum (aggregate insertion_sort no_circles) = 0" by blast+
  moreover from view v have "radius_sum (reduce_step (filter_step no_circles)) = 0" by blast
  ultimately show ?thesis
    using e v insertion_sort_contract by (simp add: no_circles_simps is_Circle_at_def)
qed

section \<open>Reduction on four threads\<close>

text \<open>With an empty view every thread is idle, whatever the schedule.\<close>

lemma static_share_empty: "static_share 0 k = []"
  by (simp add: static_share_def num_threads_def)

lemma run_schedule_idle:
  assumes "\<forall>w \<in> set ws. pending w = []"
  shows "run_schedule h cs sched (sum0, ws) = (sum0, ws)"
  using assms
proof (induction sched)
  case Nil
  show ?case by simp
next
  case (Cons k ks)
  show ?case
  proof (cases "k < length ws")
    case True
    with Cons.prems have "pending (ws ! k) = []" by simp
    then have "worker_step h cs sum0 (ws ! k) = (sum0, ws ! k)"
      by (simp add: worker_step_def)
    with True Cons show ?thesis by simp
  next
    case False
    with Cons show ?thesis by simp
  qed
qed

lemma parallel_sum_empty: "parallel_sum h [] sched = Some 0"
proof -
  have idle: "\<forall>w \<in> set (team 0). pending w = []"
    by (simp add: team_def static_share_empty)
  have "concat (map pending (team 0)) = []"
    using idle by simp
  then show ?thesis
    by (simp add: parallel_sum_def run_schedule_idle [OF idle])
qed

text \<open>The sorted view of the scenario holds two circles, of radius 1 and 3.\<close>

lemma team_2: "team (Suc (Suc 0)) = [\<lparr>pending = [0], loaded = None\<rparr>, \<lparr>pending = [1], loaded = None\<rparr>,
    \<lparr>pending = [], loaded = None\<rparr>, \<lparr>pending = [], loaded = None\<rparr>]"
  by (simp add: team_def static_share_def num_threads_def upt_rec)

lemma scenario_view:
  "circles (sort_step insertion_sort (filter_step scenario)) = [3, 0]"
  "heap (sort_step insertion_sort (filter_step scenario)) = heap scenario"
  by (simp_all add: sort_step_def scenario_filtered scenario_filtered_heap radius_less_def scenario_radii)

lemma scenario_parallel:
  "parallel_sum (heap scenario) [3, 0] [0, 1, 0, 1] = Some 3"
  "parallel_sum (heap scenario) [3, 0] [1, 0, 1, 0] = Some 1"
  "parallel_sum (heap scenario) [3, 0] [0, 0, 1, 1] = Some 4"
  "parallel_sum (heap scenario) [3, 0] [0, 1, 0] = None"
  by (simp_all add: parallel_sum_def team_2 worker_step_def scenario_radii)

text \<open>
  C6. The claim: for every circle subview the parallel reduction over the four threads yields
  a \<open>radius_sum\<close> equal to the sequential sum of the radii. The code, at the collection
  \<open>[Circle(3.0), Ellipse(2.0, 5.0), Helix(4.0, 6.0), Circle(1.0)]\<close>: the sorted view holds the
  radii 1 and 3, whose sum is 4, and threads 0 and 1 get one iteration each. When both read
  \<open>radius_sum = 0\<close> before either writes (schedule 0, 1, 0, 1), the write of thread 0 is lost
  and \<open>radius_sum\<close> ends as 3. When thread 0 completes its \<open>+=\<close> before thread 1 starts
  (schedule 0, 0, 1, 1), it ends as 4.
\<close>

theorem parallel_sum_loses_update:
  "map_option radius_sum
     (parallel_reduce_step [0, 1, 0, 1] (sort_step insertion_sort (filter_step scenario))) = Some 3 \<and>
   sum_list (map (radius_at (heap (sort_step insertion_sort (filter_step scenario))))
     (circles (sort_step insertion_sort (filter_step scenario)))) = 4 \<and>
   map_option radius_sum
     (parallel_reduce_step [0, 0, 1, 1] (sort_step insertion_sort (filter_step scenario))) = Some 4"
  using scenario_parallel
  by (simp add: parallel_reduce_step_def scenario_view scenario_radii option.map_comp comp_def)

section \<open>Collection builder\<close>

text \<open>The loop runs its body once for each \<open>i\<close> from the start value up to \<open>size - 1\<close>.\<close>

lemma build_loop_funpow: "build_loop L i s = (build_body L ^^ nat (size_main - i)) s"
proof (induction L i s rule: build_loop.induct)
  case (1 L i s)
  show ?case
  proof (cases "i < size_main")
    case True
    then have n: "nat (size_main - i) = Suc (nat (size_main - (i + 1)))"
      by simp
    have "build_loop L i s = build_loop L (i + 1) (build_body L s)"
      using True by (subst build_loop.simps) simp
    also have "\<dots> = (build_body L ^^ nat (size_main - (i + 1))) (build_body L s)"
      using True by (rule "1.IH")
    also have "\<dots> = (build_body L ^^ nat (size_main - i)) s"
      by (simp only: n funpow_Suc_right o_apply)
    finally show ?thesis .
  next
    case False
    then have "build_loop L i s = s"
      by (subst build_loop.simps) simp
    with False show ?thesis by simp
  qed
qed

text \<open>One run of the body allocates the curve of one slot and advances the generator as the slot does.\<close>

lemma build_body_drawn:
  "build_body L s = push_back_make_unique (fst (drawn_slot L (mt s))) (s\<lparr>mt := snd (drawn_slot L (mt s))\<rparr>)"
proof -
  obtain k g1 where k: "uniform_int_distribution L 1 3 (mt s) = (k, g1)"
    by (cases "uniform_int_distribution L 1 3 (mt s)")
  obtain u g2 where u: "uniform_real_distribution L (1 / 10) 100 g1 = (u, g2)"
    by (cases "uniform_real_distribution L (1 / 10) 100 g1")
  obtain v g3 where v: "uniform_real_distribution L (1 / 10) 100 g2 = (v, g3)"
    by (cases "uniform_real_distribution L (1 / 10) 100 g2")
  show ?thesis
    by (simp add: build_body_def drawn_slot_def type_dist_def radius_dist_def step_dist_def
        choice_def k u v)
qed

lemma push_back_make_unique_effect:
  assumes "set (curves s) \<subseteq> {..<brk s}"
  shows "objects (push_back_make_unique c s) = objects s @ [Some c]"
    and "curves (push_back_make_unique c s) = curves s @ [brk s]"
    and "brk (push_back_make_unique c s) = Suc (brk s)"
    and "mt (push_back_make_unique c s) = mt s"
    and "set (curves (push_back_make_unique c s)) \<subseteq> {..<brk (push_back_make_unique c s)}"
  using assms by (auto simp: objects_def push_back_make_unique_def)

lemma build_body_effect:
  assumes "set (curves s) \<subseteq> {..<brk s}"
  shows "objects (build_body L s) = objects s @ [Some (fst (drawn_slot L (mt s)))]"
    and "curves (build_body L s) = curves s @ [brk s]"
    and "brk (build_body L s) = Suc (brk s)"
    and "mt (build_body L s) = snd (drawn_slot L (mt s))"
    and "set (curves (build_body L s)) \<subseteq> {..<brk (build_body L s)}"
proof -
  let ?s = "s\<lparr>mt := snd (drawn_slot L (mt s))\<rparr>"
  have pre: "set (curves ?s) \<subseteq> {..<brk ?s}"
    using assms by simp
  have same: "objects ?s = objects s" "curves ?s = curves s" "brk ?s = brk s"
    by (simp_all add: objects_def)
  note eff = push_back_make_unique_effect [OF pre, of "fst (drawn_slot L (mt s))"]
  show "objects (build_body L s) = objects s @ [Some (fst (drawn_slot L (mt s)))]"
    using eff(1) by (simp only: build_body_drawn same)
  show "curves (build_body L s) = curves s @ [brk s]"
    using eff(2) by (simp only: build_body_drawn same)
  show "brk (build_body L s) = Suc (brk s)"
    using eff(3) by (simp only: build_body_drawn same)
  show "mt (build_body L s) = snd (drawn_slot L (mt s))"
    using eff(4) by (simp only: build_body_drawn) simp
  show "set (curves (build_body L s)) \<subseteq> {..<brk (build_body L s)}"
    using eff(5) by (simp only: build_body_drawn)
qed

lemma funpow_build_body:
  assumes "set (curves s) \<subseteq> {..<brk s}"
  shows "objects ((build_body L ^^ n) s) = objects s @ map Some (fst (drawn_collection L n (mt s))) \<and>
         mt ((build_body L ^^ n) s) = snd (drawn_collection L n (mt s)) \<and>
         curves ((build_body L ^^ n) s) = curves s @ [brk s ..< brk s + n]"
  using assms
proof (induction n arbitrary: s)
  case 0
  then show ?case by simp
next
  case (Suc n)
  note eff = build_body_effect [OF Suc.prems, of L]
  note ih = Suc.IH [OF eff(5)]
  have step: "(build_body L ^^ Suc n) s = (build_body L ^^ n) (build_body L s)"
    by (simp only: funpow_Suc_right o_apply)
  have range: "[brk s ..< brk s + Suc n] = brk s # [Suc (brk s) ..< Suc (brk s) + n]"
    by (simp add: upt_conv_Cons)
  show ?case
    using ih unfolding step eff(1-4) range
    by (simp add: split_beta Let_def)
qed

text \<open>Under the library's contract every drawn curve has its parameters in the range.\<close>

lemma drawn_slot_in_range:
  assumes "library_contract L"
  shows "parameters_in_range (fst (drawn_slot L g))"
proof -
  have real: "1 / 10 \<le> u \<and> u \<le> 100" if "uniform_real_distribution L (1 / 10) 100 g' = (u, g'')"
    for g' u g''
  proof -
    have "(1 / 10 :: real) \<le> 100" by simp
    with assms have "1 / 10 \<le> fst (uniform_real_distribution L (1 / 10) 100 g') \<and>
        fst (uniform_real_distribution L (1 / 10) 100 g') \<le> 100"
      unfolding library_contract_def by blast
    with that show ?thesis by simp
  qed
  obtain k g1 where k: "uniform_int_distribution L 1 3 g = (k, g1)"
    by (cases "uniform_int_distribution L 1 3 g")
  obtain u g2 where u: "uniform_real_distribution L (1 / 10) 100 g1 = (u, g2)"
    by (cases "uniform_real_distribution L (1 / 10) 100 g1")
  obtain v g3 where v: "uniform_real_distribution L (1 / 10) 100 g2 = (v, g3)"
    by (cases "uniform_real_distribution L (1 / 10) 100 g2")
  show ?thesis
    using real [OF u] real [OF v]
    by (simp add: drawn_slot_def k u v split: variant.splits)
qed

lemma drawn_collection_in_range:
  assumes "library_contract L"
  shows "\<forall>c \<in> set (fst (drawn_collection L n g)). parameters_in_range c"
proof (induction n arbitrary: g)
  case 0
  show ?case by simp
next
  case (Suc n)
  show ?case
    using Suc [of "snd (drawn_slot L g)"] drawn_slot_in_range [OF assms, of g]
    by (simp add: split_beta Let_def)
qed

lemma drawn_collection_length: "length (fst (drawn_collection L n g)) = n"
  by (induction n arbitrary: g) (simp_all add: split_beta Let_def)

text \<open>The choice among the variants: one variant for each value of the draw on \<open>1..3\<close>.\<close>

lemma drawn_slot_variant:
  "variant_of (fst (drawn_slot L g)) = choice (fst (type_dist L g))"
  by (simp add: drawn_slot_def type_dist_def split_beta Let_def split: variant.splits)

lemma type_dist_support:
  assumes "library_contract L"
  shows "fst (type_dist L g) \<in> {1, 2, 3}"
proof -
  have "(1::int) \<le> 3" by simp
  with assms have "1 \<le> fst (uniform_int_distribution L 1 3 g) \<and>
      fst (uniform_int_distribution L 1 3 g) \<le> 3"
    unfolding library_contract_def by blast
  then show ?thesis
    by (auto simp: type_dist_def)
qed

lemma choice_bij: "bij_betw choice {1, 2, 3} UNIV"
proof -
  have "UNIV = {Circle_variant, Ellipse_variant, Helix_variant}"
    using variant.exhaust by auto
  then have "choice ` {1, 2, 3} = UNIV"
    by (auto simp: choice_def)
  moreover have "inj_on choice {1, 2, 3}"
    by (simp add: inj_on_def choice_def)
  ultimately show ?thesis
    by (simp add: bij_betw_def)
qed

text \<open>When the type draw is uniformly distributed on \<open>1..3\<close>, so is the chosen variant on the three variants.\<close>

lemma card_variants: "card (UNIV :: variant set) = 3"
proof -
  have eq: "(UNIV :: variant set) = {Circle_variant, Ellipse_variant, Helix_variant}"
    using variant.exhaust by auto
  have "card {Circle_variant, Ellipse_variant, Helix_variant} = 3"
    by simp
  then show ?thesis by (simp only: eq)
qed

lemma uniform_choice:
  assumes "uniform_on G (\<lambda>g. fst (type_dist L g)) {1, 2, 3}"
  shows "uniform_on G (\<lambda>g. variant_of (fst (drawn_slot L g))) UNIV"
proof -
  let ?d = "\<lambda>g. fst (type_dist L g)"
  let ?A = "\<lambda>k. {g \<in> G. ?d g = k}"
  from assms have fin: "finite G"
    and cnt: "3 * card (?A 1) = card G" "3 * card (?A 2) = card G" "3 * card (?A 3) = card G"
    unfolding uniform_on_def by simp_all
  have "card (?A 1 \<union> ?A 2 \<union> ?A 3) = card (?A 1) + card (?A 2) + card (?A 3)"
  proof -
    have "card (?A 1 \<union> ?A 2) = card (?A 1) + card (?A 2)"
      using fin by (intro card_Un_disjoint) auto
    moreover have "card ((?A 1 \<union> ?A 2) \<union> ?A 3) = card (?A 1 \<union> ?A 2) + card (?A 3)"
      using fin by (intro card_Un_disjoint) auto
    ultimately show ?thesis by simp
  qed
  with cnt have "card (?A 1 \<union> ?A 2 \<union> ?A 3) = card G"
    by linarith
  moreover have "?A 1 \<union> ?A 2 \<union> ?A 3 \<subseteq> G"
    by auto
  ultimately have cover: "?A 1 \<union> ?A 2 \<union> ?A 3 = G"
    using fin by (intro card_subset_eq)
  have support: "?d g \<in> {1, 2, 3}" if "g \<in> G" for g
    using that cover by blast
  have sets: "{g \<in> G. variant_of (fst (drawn_slot L g)) = Circle_variant} = ?A 1"
    "{g \<in> G. variant_of (fst (drawn_slot L g)) = Ellipse_variant} = ?A 2"
    "{g \<in> G. variant_of (fst (drawn_slot L g)) = Helix_variant} = ?A 3"
    using support by (auto simp: drawn_slot_variant choice_def split: if_splits)
  have "card (UNIV :: variant set) * card {g \<in> G. variant_of (fst (drawn_slot L g)) = V} = card G"
    for V
    by (cases V) (simp_all only: sets cnt card_variants)
  with fin show ?thesis
    unfolding uniform_on_def by blast
qed

text \<open>The counter library keeps the contract; the first curve it makes.\<close>

lemma demo_library_contract: "library_contract demo_library"
proof -
  have int_draw: "a \<le> a + int (g mod nat (b - a + 1)) \<and> a + int (g mod nat (b - a + 1)) \<le> b"
    if "a \<le> b" for a b :: int and g :: nat
  proof -
    from that have "0 < nat (b - a + 1)" by simp
    then have "g mod nat (b - a + 1) < nat (b - a + 1)" by (rule mod_less_divisor)
    then have "int (g mod nat (b - a + 1)) < b - a + 1"
      using that by linarith
    then show ?thesis by simp
  qed
  have real_draw: "a \<le> a + (b - a) * (real (g mod 10) / 10) \<and>
      a + (b - a) * (real (g mod 10) / 10) \<le> b"
    if "a \<le> b" for a b :: real and g :: nat
  proof -
    have "g mod 10 < 10" by simp
    then have "real (g mod 10) < 10"
      by (simp only: of_nat_less_iff [where 'a = real, symmetric] of_nat_numeral)
    then have f: "0 \<le> real (g mod 10) / 10" "real (g mod 10) / 10 \<le> 1"
      by simp_all
    from that have d: "0 \<le> b - a" by simp
    have "0 \<le> (b - a) * (real (g mod 10) / 10)"
      using d f(1) by (rule mult_nonneg_nonneg)
    moreover have "(b - a) * (real (g mod 10) / 10) \<le> (b - a) * 1"
      using f(2) d by (rule mult_left_mono)
    ultimately show ?thesis by simp
  qed
  show ?thesis
    using int_draw real_draw unfolding library_contract_def
    by (simp add: demo_library_def)
qed

lemma demo_first_slot: "fst (drawn_slot demo_library 0) = Circle (1009 / 100)"
  by (simp add: drawn_slot_def demo_library_def choice_def)

lemma demo_curves: "curves (build demo_library 0) = [0, 1, 2, 3, 4, 5, 6, 7, 8, 9]"
proof -
  have start: "set (curves (initial (0::nat))) \<subseteq> {..<brk (initial (0::nat))}"
    by (simp add: initial_def)
  have "curves (build demo_library 0) = [0 ..< 10]"
    using funpow_build_body [OF start, where L = demo_library and n = 10]
    by (simp add: build_def build_loop_funpow size_main_def initial_def)
  also have "\<dots> = [0, 1, 2, 3, 4, 5, 6, 7, 8, 9]"
    by (simp add: upt_rec)
  finally show ?thesis .
qed

lemma demo_uniform: "uniform_on {0, 1, 2} (\<lambda>g. fst (type_dist demo_library g)) {1, 2, 3}"
proof -
  have "{g \<in> {0, 1, 2 :: nat}. fst (type_dist demo_library g) = 1} = {0}"
    "{g \<in> {0, 1, 2 :: nat}. fst (type_dist demo_library g) = 2} = {1}"
    "{g \<in> {0, 1, 2 :: nat}. fst (type_dist demo_library g) = 3} = {2}"
    by (auto simp: type_dist_def demo_library_def)
  then show ?thesis
    by (simp add: uniform_on_def)
qed

text \<open>
  C9. For every library and every generator state, that is for every stream of draws, the
  builder produces a collection of exactly 10 curves, each in an object of its own. The
  objects are, slot by slot, the curves of the specification's builder: the variant of a slot
  is chosen by a draw of \<^verbatim>\<open>uniform_int_distribution(1, 3)\<close>, each of its radius-like parameters
  and its step parameter is a draw of \<^verbatim>\<open>uniform_real_distribution(0.1, 100.0)\<close>, and the
  generator ends in the state these draws leave. The choice maps the three values \<open>1, 2, 3\<close>
  one-to-one onto Circle, Ellipse and Helix, and a parameter is the drawn value itself. So
  whenever the type draw is uniformly distributed on \<open>1, 2, 3\<close> over a set of equally likely
  generator states, the variant of the slot is uniformly distributed on the three variants.
  When the library keeps its contract, every type draw is one of \<open>1, 2, 3\<close> and every
  parameter of every curve lies in \<open>[0.1, 100.0]\<close>.
\<close>

theorem build_ten_curves:
  "length (curves (build L g)) = 10 \<and>
   distinct (curves (build L g)) \<and>
   objects (build L g) = map Some (fst (drawn_collection L 10 g)) \<and>
   mt (build L g) = snd (drawn_collection L 10 g) \<and>
   (\<forall>g'. variant_of (fst (drawn_slot L g')) = choice (fst (type_dist L g'))) \<and>
   bij_betw choice {1, 2, 3} UNIV \<and>
   (uniform_on G (\<lambda>g'. fst (type_dist L g')) {1, 2, 3} \<longrightarrow>
      uniform_on G (\<lambda>g'. variant_of (fst (drawn_slot L g'))) UNIV) \<and>
   (library_contract L \<longrightarrow>
      (\<forall>g'. fst (type_dist L g') \<in> {1, 2, 3}) \<and>
      (\<forall>p \<in> set (curves (build L g)).
         \<exists>c. heap (build L g) p = Some c \<and> parameters_in_range c))"
proof -
  have eq: "build L g = (build_body L ^^ 10) (initial g)"
    by (simp add: build_def build_loop_funpow size_main_def)
  have start: "set (curves (initial g)) \<subseteq> {..<brk (initial g)}"
    "objects (initial g) = []" "mt (initial g) = g" "curves (initial g) = []" "brk (initial g) = 0"
    by (simp_all add: initial_def objects_def)
  from funpow_build_body [OF start(1), where L = L and n = 10]
  have obj: "objects (build L g) = map Some (fst (drawn_collection L 10 g))"
    and gen: "mt (build L g) = snd (drawn_collection L 10 g)"
    and cur: "curves (build L g) = [0 ..< 10]"
    unfolding eq start by simp_all
  have len: "length (curves (build L g)) = 10" and dist: "distinct (curves (build L g))"
    by (simp_all add: cur)
  have rng: "\<exists>c. heap (build L g) p = Some c \<and> parameters_in_range c"
    if "library_contract L" and "p \<in> set (curves (build L g))" for p
  proof -
    from that(2) obtain i where i: "i < length (curves (build L g))" "curves (build L g) ! i = p"
      by (auto simp: in_set_conv_nth)
    then have "objects (build L g) ! i = heap (build L g) p"
      by (simp add: objects_def)
    moreover have "objects (build L g) ! i = Some (fst (drawn_collection L 10 g) ! i)"
      using i(1) by (simp add: obj len drawn_collection_length)
    moreover have "parameters_in_range (fst (drawn_collection L 10 g) ! i)"
      using drawn_collection_in_range [OF that(1), of 10 g] i(1)
      by (simp add: len drawn_collection_length)
    ultimately show ?thesis by metis
  qed
  have uni: "uniform_on G (\<lambda>g'. fst (type_dist L g')) {1, 2, 3} \<longrightarrow>
      uniform_on G (\<lambda>g'. variant_of (fst (drawn_slot L g'))) UNIV"
    using uniform_choice [of G L] by (rule impI)
  have con: "library_contract L \<longrightarrow>
      (\<forall>g'. fst (type_dist L g') \<in> {1, 2, 3}) \<and>
      (\<forall>p \<in> set (curves (build L g)).
         \<exists>c. heap (build L g) p = Some c \<and> parameters_in_range c)"
    using type_dist_support [of L] rng by blast
  have var: "\<forall>g'. variant_of (fst (drawn_slot L g')) = choice (fst (type_dist L g'))"
    by (simp add: drawn_slot_variant)
  from len dist obj gen var choice_bij uni con show ?thesis
    by (intro conjI)
qed

theorem build_ten_curves_witness:
  "library_contract demo_library \<and>
   length (curves (build demo_library 0)) = 10 \<and>
   curves (build demo_library 0) = [0, 1, 2, 3, 4, 5, 6, 7, 8, 9] \<and>
   heap (build demo_library 0) 0 = Some (Circle (1009 / 100)) \<and>
   parameters_in_range (Circle (1009 / 100)) \<and>
   fst (type_dist demo_library 0) = 1 \<and>
   choice 1 = Circle_variant \<and>
   uniform_on {0, 1, 2} (\<lambda>g. fst (type_dist demo_library g)) {1, 2, 3} \<and>
   uniform_on {0, 1, 2} (\<lambda>g. variant_of (fst (drawn_slot demo_library g))) UNIV"
proof -
  note inst = build_ten_curves [of demo_library 0 "{0, 1, 2}"]
  from inst have len: "length (curves (build demo_library 0)) = 10"
    by blast
  from inst have obj: "objects (build demo_library 0) = map Some (fst (drawn_collection demo_library 10 0))"
    by blast
  from inst demo_library_contract
  have rng: "\<forall>p \<in> set (curves (build demo_library 0)).
      \<exists>c. heap (build demo_library 0) p = Some c \<and> parameters_in_range c"
    by blast
  have "objects (build demo_library 0) ! 0 = heap (build demo_library 0) 0"
    by (simp add: objects_def demo_curves)
  moreover have "fst (drawn_collection demo_library 10 0) ! 0 = Circle (1009 / 100)"
    by (simp add: eval_nat_numeral split_beta Let_def demo_first_slot)
  moreover have "0 < length (fst (drawn_collection demo_library 10 0))"
    by (simp add: drawn_collection_length)
  ultimately have first: "heap (build demo_library 0) 0 = Some (Circle (1009 / 100))"
    by (simp add: obj)
  have "0 \<in> set (curves (build demo_library 0))"
    by (simp add: demo_curves)
  with rng first have in_range: "parameters_in_range (Circle (1009 / 100))"
    by fastforce
  have draw: "fst (type_dist demo_library 0) = 1" "choice 1 = Circle_variant"
    by (simp_all add: type_dist_def demo_library_def choice_def)
  from inst demo_uniform
  have uni: "uniform_on {0, 1, 2} (\<lambda>g. variant_of (fst (drawn_slot demo_library g))) UNIV"
    by blast
  show ?thesis
    using demo_library_contract len demo_curves first in_range draw demo_uniform uni
    by (simp only: simp_thms)
qed

end
